theory Spec2Isabelle
  imports Main
begin

section \<open>The Lisp reader of glojure (lang/LispReader.go)\<close>

text \<open>
  A shallow embedding of \<^verbatim>\<open>src/lang/LispReader.go\<close>. A rune is modelled by a \<open>char\<close>:
  the input is the sequence of runes that \<^verbatim>\<open>bufio.Reader.ReadRune\<close> decodes, taken in the
  Latin-1 range, where \<^verbatim>\<open>unicode.IsSpace\<close> and \<^verbatim>\<open>unicode.IsDigit\<close> are the fixed sets
  written out below. A Go string is the list of its runes. Every \<^verbatim>\<open>panic\<close> of the source is
  an \<open>Inl\<close> result; each operation returns the reader it leaves behind, also when it fails.
\<close>

subsection \<open>Values\<close>

type_synonym rune = char

text \<open>
  \<^verbatim>\<open>Symbol\<close> and \<^verbatim>\<open>Keyword\<close> are declared outside \<^verbatim>\<open>src/\<close>; the reader uses the fields
  \<^verbatim>\<open>ns\<close> and \<^verbatim>\<open>name\<close> of a symbol (the empty string stands for no namespace), and a keyword
  wraps a symbol. Interned objects with the same namespace and name are the same object, so
  pointer equality is equality of these records.
\<close>

record Symbol =
  ns :: string
  name :: string

datatype Keyword = Keyword Symbol

text \<open>
  The dynamic values an \<^verbatim>\<open>interface{}\<close> of the reader holds. \<open>VLispReader\<close> is the pointer
  to the \<^verbatim>\<open>LispReader\<close> a handler receives as \<^verbatim>\<open>args[0]\<close>, \<open>VBufioReader\<close> the pointer
  \<^verbatim>\<open>lr.r\<close> to its \<^verbatim>\<open>bufio.Reader\<close>: two values of different dynamic types.
  \<open>VListPtr\<close> is a \<^verbatim>\<open>*list.List\<close> (what \<^verbatim>\<open>list.New()\<close> returns) and \<open>VListVal\<close> a
  \<^verbatim>\<open>list.List\<close> struct, each with its elements front to back. \<open>VFloat64 s\<close> is the
  \<^verbatim>\<open>float64\<close> that \<^verbatim>\<open>strconv.ParseFloat(s, 64)\<close> returns; floating point is not modelled
  further. The persistent collections are those the collection library builds from a slice.
\<close>

datatype val =
    VNil
  | VBool bool
  | VInt int
  | VFloat64 string
  | VString string
  | VSymbol Symbol
  | VKeyword Keyword
  | VRegexp string
  | VLispReader
  | VBufioReader
  | VListPtr "val list"
  | VListVal "val list"
  | VPersistentList "val list"
  | VPersistentVector "val list"
  | VPersistentMap "(val \<times> val) list"

datatype go_error = EOF | ErrInvalidUnreadRune

text \<open>
  \<open>Panic s\<close> is \<^verbatim>\<open>panic(s)\<close> with the message of the source; \<open>Thrown e\<close> is
  \<^verbatim>\<open>Util.SneakyThrow(e)\<close>; \<open>MustCompilePanic\<close> is the panic of \<^verbatim>\<open>regexp.MustCompile\<close>;
  \<open>DuplicateKey\<close> is the failure of the map-construction collaborator.
\<close>

datatype error =
    Panic string
  | Thrown go_error
  | MustCompilePanic string
  | DuplicateKey

text \<open>The reader structs stored in the macro tables, one constructor per struct type.\<close>

datatype IFn =
    StringReader
  | CommentReader
  | WrappingReader Symbol
  | MetaReader
  | SyntaxQuoteReader
  | UnquoteReader
  | ListReader
  | UnmatchedDelimiterReader
  | VectorReader
  | MapReader
  | RuneReader
  | ArgReader
  | DispatchReader
  | VarReader
  | RegexReader
  | FnReader
  | SetReader
  | EvalReader
  | DiscardReader
  | UnreadableReader
  | ConditionalReader
  | CtorReader

subsection \<open>Interning and collection collaborators\<close>

definition InternSymbol2 :: "string \<Rightarrow> string \<Rightarrow> Symbol" where
  \<comment> \<open>Modelled from the spec: \<^verbatim>\<open>InternSymbol(ns, name)\<close> is not under \<^verbatim>\<open>src/\<close>; the spec gives
      \<^verbatim>\<open>internSymbol(ns?, name) -> Symbol\<close>, identity-stable.\<close>
  "InternSymbol2 n m = \<lparr>ns = n, name = m\<rparr>"

definition InternSymbol :: "string \<Rightarrow> Symbol" where
  \<comment> \<open>Modelled from the spec: \<^verbatim>\<open>InternSymbol(nsname)\<close> is not under \<^verbatim>\<open>src/\<close>; a symbol is an
      optional namespace and a name, split at the first \<^verbatim>\<open>/\<close> of a text that is not \<^verbatim>\<open>/\<close>
      itself.\<close>
  "InternSymbol s =
     (if s = ''/'' \<or> CHR ''/'' \<notin> set s then \<lparr>ns = [], name = s\<rparr>
      else \<lparr>ns = takeWhile (\<lambda>c. c \<noteq> CHR ''/'') s,
            name = tl (dropWhile (\<lambda>c. c \<noteq> CHR ''/'') s)\<rparr>)"

definition InternKeyword :: "Symbol \<Rightarrow> Keyword" where
  \<comment> \<open>Modelled from the spec: \<^verbatim>\<open>internKeyword(symbol) -> Keyword\<close>, not under \<^verbatim>\<open>src/\<close>.\<close>
  "InternKeyword s = Keyword s"

definition InternKeywordByNsName :: "string \<Rightarrow> Keyword" where
  \<comment> \<open>Modelled from the spec: the keyword over the symbol interned from one text.\<close>
  "InternKeywordByNsName s = InternKeyword (InternSymbol s)"

definition InternKeywordByNsAndName :: "string \<Rightarrow> string \<Rightarrow> Keyword" where
  \<comment> \<open>Modelled from the spec: the keyword over the symbol of a namespace and a name.\<close>
  "InternKeywordByNsAndName n m = InternKeyword (InternSymbol2 n m)"

definition QUOTE :: Symbol where
  "QUOTE = InternSymbol ''quote''"

definition THE_VAR :: Symbol where
  "THE_VAR = InternSymbol ''var''"

definition DEREF :: Symbol where
  "DEREF = InternSymbol2 ''clojure.core'' ''deref''"

definition UNKNOWN :: Keyword where
  "UNKNOWN = InternKeywordByNsName ''unknown''"

definition EMPTY_PERSISTENT_LIST :: val where
  \<comment> \<open>Modelled from the spec: the canonical empty-list constant, not under \<^verbatim>\<open>src/\<close>.\<close>
  "EMPTY_PERSISTENT_LIST = VPersistentList []"

definition CreatePersistentListFromInterfaceSlice :: "val list \<Rightarrow> val" where
  \<comment> \<open>Modelled from the spec: \<^verbatim>\<open>buildList(seq)\<close>, not under \<^verbatim>\<open>src/\<close>.\<close>
  "CreatePersistentListFromInterfaceSlice l = VPersistentList l"

definition CreateLazilyPersistentVector :: "val list \<Rightarrow> val" where
  \<comment> \<open>Modelled from the spec: \<^verbatim>\<open>buildVector(seq)\<close>, not under \<^verbatim>\<open>src/\<close>.\<close>
  "CreateLazilyPersistentVector l = VPersistentVector l"

definition RT_List :: "val list \<Rightarrow> val" where
  \<comment> \<open>Modelled from the spec: \<^verbatim>\<open>RT.List\<close>, the list of its arguments, not under \<^verbatim>\<open>src/\<close>.\<close>
  "RT_List l = VPersistentList l"

fun pairs :: "val list \<Rightarrow> (val \<times> val) list" where
  "pairs (k # v # rest) = (k, v) # pairs rest"
| "pairs _ = []"

definition RT_Map :: "val list \<Rightarrow> error + val" where
  \<comment> \<open>Modelled from the spec: \<^verbatim>\<open>RT.Map\<close> is not under \<^verbatim>\<open>src/\<close>; the spec gives
      \<^verbatim>\<open>buildMap(pairs)\<close>, which is handed the successive pairs and fails on a duplicate key.\<close>
  "RT_Map a =
     (if distinct (map fst (pairs a)) then Inr (VPersistentMap (pairs a))
      else Inl DuplicateKey)"

subsection \<open>Package-level variables and library functions\<close>

text \<open>
  The package-level variables the reader consults, and the functions it calls whose code is
  not modelled. \<open>macros\<close>, \<open>dispatchMacros\<close> and \<open>ctorReader\<close> are the variables of those
  names; \<open>READ_EOF\<close> and \<open>READ_FINISHED\<close> are the two results of \<^verbatim>\<open>rand.Int()\<close>;
  \<open>READEVAL\<close> is the value \<^verbatim>\<open>READEVAL.Deref()\<close> returns (the variable is declared outside
  \<^verbatim>\<open>src/\<close>). \<open>ParseFloat_ok s\<close> says that \<^verbatim>\<open>strconv.ParseFloat(s, 64)\<close> returns no error,
  \<open>Compile_ok s\<close> that \<^verbatim>\<open>regexp.MustCompile(s)\<close> does not panic. A namespace is known by
  the name of its name symbol: \<open>CurrentNS\<close> is \<^verbatim>\<open>Compiler.CurrentNS()\<close> and \<open>NamespaceFor\<close>
  is \<^verbatim>\<open>Compiler.NamespaceFor\<close>, \<open>None\<close> for \<^verbatim>\<open>nil\<close>.
\<close>

record globals =
  macros :: "rune \<Rightarrow> IFn option"
  dispatchMacros :: "rune \<Rightarrow> IFn option"
  ctorReader :: IFn
  READ_EOF :: int
  READ_FINISHED :: int
  READEVAL :: val
  ParseFloat_ok :: "string \<Rightarrow> bool"
  Compile_ok :: "string \<Rightarrow> bool"
  CurrentNS :: "string option"
  NamespaceFor :: "string option \<Rightarrow> Symbol \<Rightarrow> string option"

text \<open>The two tables as the source initialises them.\<close>

definition macros_init :: "rune \<Rightarrow> IFn option" where
  "macros_init = map_of
     [(CHR 0x22, StringReader),
      (CHR '';'', CommentReader),
      (CHR 0x27, WrappingReader QUOTE),
      (CHR ''@'', WrappingReader DEREF),
      (CHR ''^'', MetaReader),
      (CHR 0x60, SyntaxQuoteReader),
      (CHR ''~'', UnquoteReader),
      (CHR ''('', ListReader),
      (CHR '')'', UnmatchedDelimiterReader),
      (CHR ''['', VectorReader),
      (CHR '']'', UnmatchedDelimiterReader),
      (CHR ''{'', MapReader),
      (CHR ''}'', UnmatchedDelimiterReader),
      (CHR 0x5C, RuneReader),
      (CHR ''%'', ArgReader),
      (CHR ''#'', DispatchReader)]"

definition dispatchMacros_init :: "rune \<Rightarrow> IFn option" where
  "dispatchMacros_init = map_of
     [(CHR ''^'', MetaReader),
      (CHR 0x27, VarReader),
      (CHR 0x22, RegexReader),
      (CHR ''('', FnReader),
      (CHR ''{'', SetReader),
      (CHR ''='', EvalReader),
      (CHR ''!'', CommentReader),
      (CHR ''<'', UnreadableReader),
      (CHR ''_'', DiscardReader),
      (CHR ''?'', ConditionalReader)]"

text \<open>
  The package as initialised, for given results of the two \<^verbatim>\<open>rand.Int()\<close> calls and a given
  binding of the read-eval flag. The remaining fields are stand-ins: no namespace is current,
  \<^verbatim>\<open>ParseFloat\<close> accepts no text and \<^verbatim>\<open>MustCompile\<close> every pattern. No result evaluated
  below depends on them.
\<close>

definition package :: "int \<Rightarrow> int \<Rightarrow> val \<Rightarrow> globals" where
  "package eof fin readeval =
     \<lparr>macros = macros_init, dispatchMacros = dispatchMacros_init, ctorReader = CtorReader,
      READ_EOF = eof, READ_FINISHED = fin, READEVAL = readeval,
      ParseFloat_ok = (\<lambda>s. False), Compile_ok = (\<lambda>s. True),
      CurrentNS = None, NamespaceFor = (\<lambda>cur s. None)\<rparr>"

text \<open>
  The package used where a concrete one is needed: two distinct draws of \<^verbatim>\<open>rand.Int()\<close> and
  the read-eval flag bound to \<^verbatim>\<open>true\<close>.
\<close>

definition example_package :: globals where
  "example_package = package 5577006791947779410 8674665223082153551 (VBool True)"

subsection \<open>The character source\<close>

text \<open>
  \<^verbatim>\<open>LispReader\<close> holds only the pointer \<^verbatim>\<open>r\<close> to its \<^verbatim>\<open>bufio.Reader\<close>; the model keeps that
  reader's state: the runes not yet read, and the rune \<^verbatim>\<open>UnreadRune\<close> would give back
  (\<open>None\<close> when \<^verbatim>\<open>lastRuneSize\<close> is negative: before any read, after a read that hit the end
  of input, and after an unread).
\<close>

record LispReader =
  unread :: "rune list"
  lastRune :: "rune option"

definition CreateLispReader :: "string \<Rightarrow> LispReader" where
  "CreateLispReader s = \<lparr>unread = s, lastRune = None\<rparr>"

definition is_err :: "go_error option \<Rightarrow> bool" where
  \<comment> \<open>\<^verbatim>\<open>err != nil\<close>\<close>
  "is_err err = (case err of None \<Rightarrow> False | Some e \<Rightarrow> True)"

definition ReadRune :: "LispReader \<Rightarrow> (rune \<times> go_error option) \<times> LispReader" where
  \<comment> \<open>The in-memory source has no failure but the end of input, where \<^verbatim>\<open>bufio\<close> returns
      rune 0 and \<^verbatim>\<open>io.EOF\<close> and forgets the last rune.\<close>
  "ReadRune lr =
     (case unread lr of
        [] \<Rightarrow> ((CHR 0x00, Some EOF), lr\<lparr>lastRune := None\<rparr>)
      | c # cs \<Rightarrow> ((c, None), \<lparr>unread = cs, lastRune = Some c\<rparr>))"

definition SneakyThrow :: "go_error \<Rightarrow> error" where
  \<comment> \<open>Modelled from the spec: \<^verbatim>\<open>Util.SneakyThrow\<close> is not under \<^verbatim>\<open>src/\<close>; a failure of the
      character source other than the end of input propagates as a fatal read error.\<close>
  "SneakyThrow e = Thrown e"

definition UnreadRune :: "LispReader \<Rightarrow> (error + unit) \<times> LispReader" where
  \<comment> \<open>\<^verbatim>\<open>bufio.Reader.UnreadRune\<close> returns \<^verbatim>\<open>ErrInvalidUnreadRune\<close> when \<^verbatim>\<open>lastRuneSize < 0\<close>.\<close>
  "UnreadRune lr =
     (case lastRune lr of
        None \<Rightarrow> (Inl (SneakyThrow ErrInvalidUnreadRune), lr)
      | Some c \<Rightarrow> (Inr (), \<lparr>unread = c # unread lr, lastRune = None\<rparr>))"

definition ensurePending :: "val \<Rightarrow> val" where
  "ensurePending pendingForms = (if pendingForms = VNil then VListPtr [] else pendingForms)"

subsection \<open>Classifying runes\<close>

definition IsSpace :: "rune \<Rightarrow> bool" where
  \<comment> \<open>\<^verbatim>\<open>unicode.IsSpace\<close> on Latin-1: tab, LF, VT, FF, CR, space, U+0085, U+00A0.\<close>
  "IsSpace ch = (ch \<in> set [CHR 0x09, CHR 0x0A, CHR 0x0B, CHR 0x0C, CHR 0x0D, CHR 0x20,
                            CHR 0x85, CHR 0xA0])"

definition IsDigit :: "rune \<Rightarrow> bool" where
  \<comment> \<open>\<^verbatim>\<open>unicode.IsDigit\<close> on Latin-1: the ten ASCII digits.\<close>
  "IsDigit ch = (ch \<in> set ''0123456789'')"

definition IsMacro :: "globals \<Rightarrow> rune \<Rightarrow> bool" where
  "IsMacro g ch = (case macros g ch of None \<Rightarrow> False | Some fn \<Rightarrow> True)"

definition IsTerminatingMacro :: "globals \<Rightarrow> rune \<Rightarrow> bool" where
  "IsTerminatingMacro g ch =
     (ch \<noteq> CHR ''#'' \<and> ch \<noteq> CHR 0x27 \<and> ch \<noteq> CHR ''%'' \<and> IsMacro g ch)"

subsection \<open>Tokens and numbers\<close>

text \<open>
  The loop of \<^verbatim>\<open>ReadToken\<close>, with the buffer \<^verbatim>\<open>b\<close> written so far: it stops at the end of
  input, at white space and at a terminating macro rune, calls \<^verbatim>\<open>UnreadRune\<close> in each of
  the three cases, and returns the buffer.
\<close>

function ReadToken_loop :: "globals \<Rightarrow> string \<Rightarrow> LispReader \<Rightarrow> (error + string) \<times> LispReader" where
  "ReadToken_loop g b lr =
     (case ReadRune lr of
        ((ch, err), lr1) \<Rightarrow>
          if is_err err \<or> IsSpace ch \<or> IsTerminatingMacro g ch then
            (case UnreadRune lr1 of
               (Inl e, lr2) \<Rightarrow> (Inl e, lr2)
             | (Inr u, lr2) \<Rightarrow> (Inr b, lr2))
          else ReadToken_loop g (b @ [ch]) lr1)"
  by pat_completeness auto
termination
  by (relation "measure (\<lambda>(g, b, lr). length (unread lr))")
     (auto simp: ReadRune_def is_err_def split: list.splits)

declare ReadToken_loop.simps [simp del]

definition ReadToken :: "globals \<Rightarrow> rune \<Rightarrow> LispReader \<Rightarrow> (error + string) \<times> LispReader" where
  "ReadToken g initch lr = ReadToken_loop g [initch] lr"

text \<open>
  The loop of \<^verbatim>\<open>ReadNumber\<close>: for each rune read before the end of the token it writes
  \<^verbatim>\<open>initch\<close> to the buffer (\<^verbatim>\<open>sb.WriteRune(initch)\<close>), not the rune read.
\<close>

function ReadNumber_loop ::
  "globals \<Rightarrow> rune \<Rightarrow> string \<Rightarrow> LispReader \<Rightarrow> (error + string) \<times> LispReader" where
  "ReadNumber_loop g initch sb lr =
     (case ReadRune lr of
        ((ch, err), lr1) \<Rightarrow>
          if is_err err \<or> IsSpace ch \<or> IsMacro g ch then
            (case UnreadRune lr1 of
               (Inl e, lr2) \<Rightarrow> (Inl e, lr2)
             | (Inr u, lr2) \<Rightarrow> (Inr sb, lr2))
          else ReadNumber_loop g initch (sb @ [initch]) lr1)"
  by pat_completeness auto
termination
  by (relation "measure (\<lambda>(g, initch, sb, lr). length (unread lr))")
     (auto simp: ReadRune_def is_err_def split: list.splits)

declare ReadNumber_loop.simps [simp del]

definition digits_value :: "string \<Rightarrow> nat" where
  "digits_value s = foldl (\<lambda>n c. 10 * n + (of_char c - 48)) 0 s"

definition ParseInt :: "string \<Rightarrow> int option" where
  \<comment> \<open>\<^verbatim>\<open>strconv.ParseInt(s, 10, 64)\<close>, \<open>None\<close> when it returns an error: an optional sign
      and one or more decimal digits, the value within the 64-bit signed range.\<close>
  "ParseInt s =
     (let neg = (s \<noteq> [] \<and> hd s = CHR ''-'');
          ds = (if s \<noteq> [] \<and> (hd s = CHR ''+'' \<or> hd s = CHR ''-'') then tl s else s);
          n = (if neg then - int (digits_value ds) else int (digits_value ds))
      in if ds \<noteq> [] \<and> list_all IsDigit ds \<and> - (2 ^ 63) \<le> n \<and> n < 2 ^ 63
         then Some n else None)"

definition ReadNumber :: "globals \<Rightarrow> rune \<Rightarrow> LispReader \<Rightarrow> (error + val) \<times> LispReader" where
  \<comment> \<open>\<^verbatim>\<open>int(n)\<close> keeps the value: \<^verbatim>\<open>int\<close> has 64 bits.\<close>
  "ReadNumber g initch lr =
     (case ReadNumber_loop g initch [initch] lr of
        (Inl e, lr1) \<Rightarrow> (Inl e, lr1)
      | (Inr s, lr1) \<Rightarrow>
          (case ParseInt s of
             Some n \<Rightarrow> (Inr (VInt n), lr1)
           | None \<Rightarrow>
               if ParseFloat_ok g s then (Inr (VFloat64 s), lr1)
               else (Inl (Panic (''Invalid number: '' @ s)), lr1)))"

subsection \<open>Symbols and keywords\<close>

text \<open>
  \<^verbatim>\<open>symbolPat\<close> is \<^verbatim>\<open>:?([^/\d].*/)?(/|[^\d/][^/]*)\<close>. Go's \<^verbatim>\<open>regexp\<close> returns the leftmost
  match, and among the matches that start there the one a backtracking search finds first.
  \<^verbatim>\<open>\d\<close> is an ASCII digit, \<^verbatim>\<open>.\<close> is any rune but a line feed, and a negated class matches
  a line feed. The matcher below follows the pattern piece by piece; it returns the texts of
  the two groups, the empty text for a group that took no part.
\<close>

definition symbolPat_name :: "string \<Rightarrow> string option" where
  \<comment> \<open>The last piece, \<^verbatim>\<open>(/|[^\d/][^/]*)\<close>, at the start of a text.\<close>
  "symbolPat_name s =
     (case s of
        [] \<Rightarrow> None
      | c # cs \<Rightarrow>
          if c = CHR ''/'' then Some ''/''
          else if IsDigit c then None
          else Some (c # takeWhile (\<lambda>x. x \<noteq> CHR ''/'') cs))"

fun symbolPat_ns_tail :: "string \<Rightarrow> (string \<times> string) option" where
  \<comment> \<open>\<^verbatim>\<open>.*/\<close> followed by the last piece: the greedy \<^verbatim>\<open>.*\<close> first takes one more rune, and
      ends before a \<^verbatim>\<open>/\<close> only when taking it led to no match.\<close>
  "symbolPat_ns_tail [] = None"
| "symbolPat_ns_tail (c # cs) =
     (case (if c = CHR 0x0A then None else symbolPat_ns_tail cs) of
        Some (u, nm) \<Rightarrow> Some (c # u, nm)
      | None \<Rightarrow>
          if c = CHR ''/'' then
            (case symbolPat_name cs of Some nm \<Rightarrow> Some (''/'', nm) | None \<Rightarrow> None)
          else None)"

definition symbolPat_groups :: "string \<Rightarrow> (string \<times> string) option" where
  \<comment> \<open>\<^verbatim>\<open>([^/\d].*/)?(/|[^\d/][^/]*)\<close> at the start of a text: the optional group is tried
      first.\<close>
  "symbolPat_groups s =
     (case (case s of
              [] \<Rightarrow> None
            | c # cs \<Rightarrow>
                if c = CHR ''/'' \<or> IsDigit c then None
                else (case symbolPat_ns_tail cs of
                        Some (u, nm) \<Rightarrow> Some (c # u, nm)
                      | None \<Rightarrow> None)) of
        Some m \<Rightarrow> Some m
      | None \<Rightarrow> (case symbolPat_name s of Some nm \<Rightarrow> Some ([], nm) | None \<Rightarrow> None))"

definition symbolPat_here :: "string \<Rightarrow> (string \<times> string) option" where
  \<comment> \<open>The whole pattern at the start of a text: \<^verbatim>\<open>:?\<close> first takes the colon.\<close>
  "symbolPat_here s =
     (case (case s of
              [] \<Rightarrow> None
            | c # cs \<Rightarrow> if c = CHR '':'' then symbolPat_groups cs else None) of
        Some m \<Rightarrow> Some m
      | None \<Rightarrow> symbolPat_groups s)"

fun symbolPat_FindStringSubmatch :: "string \<Rightarrow> (string \<times> string) option" where
  \<comment> \<open>The leftmost match; \<open>None\<close> when \<^verbatim>\<open>FindString\<close> returns the empty text (every match
      has at least one rune).\<close>
  "symbolPat_FindStringSubmatch [] = symbolPat_here []"
| "symbolPat_FindStringSubmatch (c # cs) =
     (case symbolPat_here (c # cs) of
        Some m \<Rightarrow> Some m
      | None \<Rightarrow> symbolPat_FindStringSubmatch cs)"

definition HasSuffix :: "string \<Rightarrow> string \<Rightarrow> bool" where
  "HasSuffix s suffix =
     (length suffix \<le> length s \<and> drop (length s - length suffix) s = suffix)"

definition HasPrefix :: "string \<Rightarrow> string \<Rightarrow> bool" where
  "HasPrefix s p = (take (length p) s = p)"

fun Index :: "string \<Rightarrow> string \<Rightarrow> int" where
  "Index [] substr = (if substr = [] then 0 else - 1)"
| "Index (c # cs) substr =
     (if take (length substr) (c # cs) = substr then 0
      else (case Index cs substr of i \<Rightarrow> if i = - 1 then - 1 else i + 1))"

definition matchSymbol :: "globals \<Rightarrow> string \<Rightarrow> val" where
  "matchSymbol g s =
     (case symbolPat_FindStringSubmatch s of
        None \<Rightarrow> VNil
      | Some (nsp, nm) \<Rightarrow>
          if (nsp \<noteq> [] \<and> HasSuffix nsp '':/'') \<or> HasSuffix nm '':''
             \<or> Index (tl s) ''::'' \<noteq> - 1 then VNil
          else if HasPrefix s ''::'' then
            (let ks = InternSymbol (drop 2 s);
                 kns = (if ns ks \<noteq> [] then NamespaceFor g (CurrentNS g) ks else CurrentNS g)
             in case kns of
                  Some k \<Rightarrow> VKeyword (InternKeywordByNsAndName k (name ks))
                | None \<Rightarrow> VNil)
          else if Index s '':'' = 0 then VKeyword (InternKeyword (InternSymbol (tl s)))
          else VSymbol (InternSymbol s))"

definition interpretToken :: "globals \<Rightarrow> string \<Rightarrow> error + val" where
  "interpretToken g s =
     (if s = ''nil'' then Inr VNil
      else if s = ''true'' then Inr (VBool True)
      else if s = ''false'' then Inr (VBool False)
      else (case matchSymbol g s of
              VNil \<Rightarrow> Inl (Panic (''Invalid token: '' @ s))
            | ret \<Rightarrow> Inr ret))"

subsection \<open>Handlers that read runes only\<close>

definition StringReader_escape :: "rune \<Rightarrow> LispReader \<Rightarrow> rune \<times> LispReader" where
  \<comment> \<open>The \<^verbatim>\<open>switch\<close> on the rune after a backslash. The case \<^verbatim>\<open>'u'\<close> reads one more
      rune and does nothing else; the default case does nothing.\<close>
  "StringReader_escape ch lr =
     (if ch = CHR ''t'' then (CHR 0x09, lr)
      else if ch = CHR ''r'' then (CHR 0x0D, lr)
      else if ch = CHR ''n'' then (CHR 0x0A, lr)
      else if ch = CHR 0x5C then (ch, lr)
      else if ch = CHR 0x22 then (ch, lr)
      else if ch = CHR ''b'' then (CHR 0x08, lr)
      else if ch = CHR ''f'' then (CHR 0x0C, lr)
      else if ch = CHR ''u'' then (case ReadRune lr of ((ch1, err1), lr1) \<Rightarrow> (ch1, lr1))
      else (ch, lr))"

lemma StringReader_escape_unread:
  "length (unread (snd (StringReader_escape ch lr))) \<le> length (unread lr)"
  by (simp add: StringReader_escape_def ReadRune_def split: list.splits)

function StringReader_loop :: "string \<Rightarrow> LispReader \<Rightarrow> (error + val) \<times> LispReader" where
  "StringReader_loop sb lr =
     (case ReadRune lr of
        ((ch, err), lr1) \<Rightarrow>
          if ch = CHR 0x22 then (Inr (VString sb), lr1)
          else if err = Some EOF then (Inl (Panic ''EOF while reading string''), lr1)
          else if ch = CHR 0x5C then
            (case ReadRune lr1 of
               ((ch2, err2), lr2) \<Rightarrow>
                 if err2 = Some EOF then (Inl (Panic ''EOF while reading string''), lr2)
                 else (case StringReader_escape ch2 lr2 of
                         (ch3, lr3) \<Rightarrow> StringReader_loop (sb @ [ch3]) lr3))
          else StringReader_loop (sb @ [ch]) lr1)"
  by pat_completeness auto
termination
proof (relation "measure (\<lambda>(sb, lr). length (unread lr))", goal_cases)
  case 1
  show ?case by simp
next
  case (2 sb lr x1 lr1 ch err x1a lr2 ch2 err2 x y)
  have "length (unread (snd (StringReader_escape ch2 lr2))) \<le> length (unread lr2)"
    by (rule StringReader_escape_unread)
  moreover have "snd (StringReader_escape ch2 lr2) = y"
    using 2 by (metis snd_conv)
  ultimately have "length (unread y) \<le> length (unread lr2)"
    by simp
  with 2 show ?case
    by (auto simp: ReadRune_def split: list.splits)
next
  case 3
  then show ?case by (auto simp: ReadRune_def split: list.splits)
qed

declare StringReader_loop.simps [simp del]

function CommentReader_loop :: "LispReader \<Rightarrow> LispReader" where
  "CommentReader_loop lr =
     (case ReadRune lr of
        ((ch, err), lr1) \<Rightarrow>
          if ch \<noteq> CHR 0x0A \<and> ch \<noteq> CHR 0x0D \<and> err \<noteq> Some EOF then CommentReader_loop lr1
          else lr1)"
  by pat_completeness auto
termination
  by (relation "measure (\<lambda>lr. length (unread lr))")
     (auto simp: ReadRune_def split: list.splits)

declare CommentReader_loop.simps [simp del]

function RegexReader_loop :: "string \<Rightarrow> LispReader \<Rightarrow> (error + string) \<times> LispReader" where
  "RegexReader_loop sb lr =
     (case ReadRune lr of
        ((ch, err), lr1) \<Rightarrow>
          if ch = CHR 0x22 then (Inr sb, lr1)
          else if err = Some EOF then (Inl (Panic ''EOF while reading regex''), lr1)
          else if ch = CHR 0x5C then
            (case ReadRune lr1 of
               ((ch2, err2), lr2) \<Rightarrow>
                 if err2 = Some EOF then (Inl (Panic ''EOF while reading regex''), lr2)
                 else RegexReader_loop (sb @ [ch, ch2]) lr2)
          else RegexReader_loop (sb @ [ch]) lr1)"
  by pat_completeness auto
termination
  by (relation "measure (\<lambda>(sb, lr). length (unread lr))")
     (auto simp: ReadRune_def split: list.splits)

declare RegexReader_loop.simps [simp del]

definition RegexReader_Invoke :: "globals \<Rightarrow> LispReader \<Rightarrow> (error + val) \<times> LispReader" where
  "RegexReader_Invoke g lr =
     (case RegexReader_loop [] lr of
        (Inl e, lr1) \<Rightarrow> (Inl e, lr1)
      | (Inr s, lr1) \<Rightarrow>
          if Compile_ok g s then (Inr (VRegexp s), lr1) else (Inl (MustCompilePanic s), lr1))"

function skipSpace ::
  "(rune \<times> go_error option) \<times> LispReader \<Rightarrow> (rune \<times> go_error option) \<times> LispReader" where
  \<comment> \<open>\<^verbatim>\<open>for unicode.IsSpace(ch) { ch, err = lr.ReadRune() }\<close>\<close>
  "skipSpace ((ch, err), lr) =
     (if IsSpace ch then skipSpace (ReadRune lr) else ((ch, err), lr))"
  by pat_completeness auto
termination
  by (relation "measure (\<lambda>((ch, err), lr). length (unread lr) + (if IsSpace ch then 1 else 0))")
     (auto simp: ReadRune_def IsSpace_def split: list.splits)

declare skipSpace.simps [simp del]

definition pending_front :: "val \<Rightarrow> val option" where
  \<comment> \<open>The type switch on \<^verbatim>\<open>pendingForms\<close>: only the case \<^verbatim>\<open>list.List\<close> is listed, which a
      \<^verbatim>\<open>*list.List\<close> does not match. \<^verbatim>\<open>pf\<close> is a copy of the struct; \<^verbatim>\<open>pf.Remove(pf.Front())\<close>
      returns the value of the front element.\<close>
  "pending_front pendingForms =
     (case pendingForms of
        VListVal (x # xs) \<Rightarrow> Some x
      | _ \<Rightarrow> None)"

subsection \<open>The reader engine\<close>

definition Read_token :: "globals \<Rightarrow> rune \<Rightarrow> LispReader \<Rightarrow> (error + val) \<times> LispReader" where
  \<comment> \<open>The end of the loop body of \<^verbatim>\<open>Read\<close>: \<^verbatim>\<open>return interpretToken(lr.ReadToken(ch))\<close>.\<close>
  "Read_token g ch lr =
     (case ReadToken g ch lr of
        (Inl e, lr1) \<Rightarrow> (Inl e, lr1)
      | (Inr token, lr1) \<Rightarrow> (interpretToken g token, lr1))"

definition Read_sign :: "globals \<Rightarrow> rune \<Rightarrow> LispReader \<Rightarrow> (error + val) \<times> LispReader" where
  \<comment> \<open>The loop body of \<^verbatim>\<open>Read\<close> from the test for a sign on: a sign followed by a digit
      starts a number, anything else a token.\<close>
  "Read_sign g ch lr =
     (if ch = CHR ''+'' \<or> ch = CHR ''-'' then
        (case ReadRune lr of
           ((ch2, err2), lr1) \<Rightarrow>
             if IsDigit ch2 then
               (case UnreadRune lr1 of
                  (Inl e, lr2) \<Rightarrow> (Inl e, lr2)
                | (Inr u, lr2) \<Rightarrow> ReadNumber g ch lr2)
             else
               (case UnreadRune lr1 of
                  (Inl e, lr2) \<Rightarrow> (Inl e, lr2)
                | (Inr u, lr2) \<Rightarrow> Read_token g ch lr2))
      else Read_token g ch lr)"

text \<open>
  \<^verbatim>\<open>Read\<close>, \<^verbatim>\<open>ReadDelimitedList\<close> and the handlers call each other, and
  \<^verbatim>\<open>ReadDelimitedList\<close> need not return when every \<^verbatim>\<open>Read\<close> answers from a non-empty
  \<^verbatim>\<open>list.List\<close> of pending forms. The first argument bounds the number of nested calls and
  loop rounds; \<open>None\<close> says that the bound was reached. \<open>Read_loop\<close> is the \<^verbatim>\<open>for\<close> loop of
  \<^verbatim>\<open>Read\<close>, \<open>Invoke\<close> the method \<^verbatim>\<open>Invoke\<close> of each reader struct with the arguments
  \<^verbatim>\<open>(r, ch, opts, pendingForms)\<close>, and the argument \<open>a\<close> of \<open>ReadDelimitedList\<close> the slice
  built so far, \<open>[]\<close> at the call.
\<close>

function (sequential) Read ::
    "nat \<Rightarrow> globals \<Rightarrow> bool \<Rightarrow> val \<Rightarrow> rune \<Rightarrow> val \<Rightarrow> bool \<Rightarrow> val \<Rightarrow> val \<Rightarrow> LispReader
       \<Rightarrow> ((error + val) \<times> LispReader) option"
  and Read_loop ::
    "nat \<Rightarrow> globals \<Rightarrow> bool \<Rightarrow> val \<Rightarrow> rune \<Rightarrow> val \<Rightarrow> bool \<Rightarrow> val \<Rightarrow> val \<Rightarrow> LispReader
       \<Rightarrow> ((error + val) \<times> LispReader) option"
  and ReadDelimitedList ::
    "nat \<Rightarrow> globals \<Rightarrow> rune \<Rightarrow> bool \<Rightarrow> val \<Rightarrow> val \<Rightarrow> val list \<Rightarrow> LispReader
       \<Rightarrow> ((error + val list) \<times> LispReader) option"
  and Invoke ::
    "nat \<Rightarrow> globals \<Rightarrow> IFn \<Rightarrow> rune \<Rightarrow> val \<Rightarrow> val \<Rightarrow> LispReader
       \<Rightarrow> ((error + val) \<times> LispReader) option"
where
  "Read 0 g eofIsError eofValue returnOn returnOnValue isRecursive opts pendingForms lr = None"
| "Read (Suc n) g eofIsError eofValue returnOn returnOnValue isRecursive opts pendingForms lr =
     (if READEVAL g = VKeyword UNKNOWN then
        Some (Inl (Panic ''Reading disallowed - *read-eval* bound to :unknown''), lr)
      else Read_loop n g eofIsError eofValue returnOn returnOnValue isRecursive opts
             pendingForms lr)"
| "Read_loop 0 g eofIsError eofValue returnOn returnOnValue isRecursive opts pendingForms lr =
     None"
| "Read_loop (Suc n) g eofIsError eofValue returnOn returnOnValue isRecursive opts
     pendingForms lr =
     (case pending_front pendingForms of
        Some v \<Rightarrow> Some (Inr v, lr)
      | None \<Rightarrow>
          (case skipSpace (ReadRune lr) of
             ((ch, err), lr1) \<Rightarrow>
               if err = Some EOF then
                 (if eofIsError then Some (Inl (Panic ''EOF while reading''), lr1)
                  else Some (Inr eofValue, lr1))
               else if returnOn \<noteq> CHR 0x00 \<and> returnOn = ch then Some (Inr returnOnValue, lr1)
               else if IsDigit ch then Some (ReadNumber g ch lr1)
               else
                 (case macros g ch of
                    Some macroFn \<Rightarrow>
                      (case Invoke n g macroFn ch opts pendingForms lr1 of
                         None \<Rightarrow> None
                       | Some (Inl e, lr2) \<Rightarrow> Some (Inl e, lr2)
                       | Some (Inr ret, lr2) \<Rightarrow>
                           if ret = VBufioReader then
                             Read_loop n g eofIsError eofValue returnOn returnOnValue
                               isRecursive opts pendingForms lr2
                           else Some (Inr ret, lr2))
                  | None \<Rightarrow> Some (Read_sign g ch lr1))))"
| "ReadDelimitedList 0 g delim isRecursive opts pendingForms a lr = None"
| "ReadDelimitedList (Suc n) g delim isRecursive opts pendingForms a lr =
     (case Read n g False (VInt (READ_EOF g)) delim (VInt (READ_FINISHED g)) isRecursive opts
             pendingForms lr of
        None \<Rightarrow> None
      | Some (Inl e, lr1) \<Rightarrow> Some (Inl e, lr1)
      | Some (Inr form, lr1) \<Rightarrow>
          if form = VInt (READ_EOF g) then Some (Inl (Panic ''EOF while reading''), lr1)
          else if form = VInt (READ_FINISHED g) then Some (Inr a, lr1)
          else ReadDelimitedList n g delim isRecursive opts pendingForms (a @ [form]) lr1)"
| "Invoke 0 g fn ch opts pendingForms lr = None"
| "Invoke (Suc n) g fn ch opts pendingForms lr =
     (case fn of
        StringReader \<Rightarrow> Some (StringReader_loop [] lr)
      | CommentReader \<Rightarrow> Some (Inr VLispReader, CommentReader_loop lr)
      | DiscardReader \<Rightarrow>
          (case Read n g True VNil (CHR 0x00) VNil True opts (ensurePending pendingForms) lr of
             None \<Rightarrow> None
           | Some (Inl e, lr1) \<Rightarrow> Some (Inl e, lr1)
           | Some (Inr form, lr1) \<Rightarrow> Some (Inr VLispReader, lr1))
      | WrappingReader s \<Rightarrow> Some (Inr VNil, lr)
      | VarReader \<Rightarrow>
          (case Read n g True VNil (CHR 0x00) VNil True opts (ensurePending pendingForms) lr of
             None \<Rightarrow> None
           | Some (Inl e, lr1) \<Rightarrow> Some (Inl e, lr1)
           | Some (Inr form, lr1) \<Rightarrow> Some (Inr (RT_List [VSymbol THE_VAR, form]), lr1))
      | DispatchReader \<Rightarrow>
          (case ReadRune lr of
             ((ch1, err), lr1) \<Rightarrow>
               if err = Some EOF then Some (Inl (Panic ''EOF while reading character''), lr1)
               else
                 (case dispatchMacros g ch1 of
                    None \<Rightarrow>
                      (case UnreadRune lr1 of
                         (Inl e, lr2) \<Rightarrow> Some (Inl e, lr2)
                       | (Inr u, lr2) \<Rightarrow>
                           (case Invoke n g (ctorReader g) ch1 opts (ensurePending pendingForms)
                                   lr2 of
                              None \<Rightarrow> None
                            | Some (Inl e, lr3) \<Rightarrow> Some (Inl e, lr3)
                            | Some (Inr result, lr3) \<Rightarrow>
                                if result \<noteq> VNil then Some (Inr result, lr3)
                                else Some (Inl (Panic (''No dispatch macro for: '' @ [ch1])),
                                           lr3)))
                  | Some fn1 \<Rightarrow> Invoke n g fn1 ch1 opts pendingForms lr1))
      | ListReader \<Rightarrow>
          (case ReadDelimitedList n g (CHR '')'') True opts (ensurePending pendingForms) [] lr of
             None \<Rightarrow> None
           | Some (Inl e, lr1) \<Rightarrow> Some (Inl e, lr1)
           | Some (Inr l, lr1) \<Rightarrow>
               if length l = 0 then Some (Inr EMPTY_PERSISTENT_LIST, lr1)
               else Some (Inr (CreatePersistentListFromInterfaceSlice l), lr1))
      | VectorReader \<Rightarrow>
          (case ReadDelimitedList n g (CHR '']'') True opts (ensurePending pendingForms) [] lr of
             None \<Rightarrow> None
           | Some (Inl e, lr1) \<Rightarrow> Some (Inl e, lr1)
           | Some (Inr l, lr1) \<Rightarrow> Some (Inr (CreateLazilyPersistentVector l), lr1))
      | MapReader \<Rightarrow>
          (case ReadDelimitedList n g (CHR ''}'') True opts (ensurePending pendingForms) [] lr of
             None \<Rightarrow> None
           | Some (Inl e, lr1) \<Rightarrow> Some (Inl e, lr1)
           | Some (Inr a, lr1) \<Rightarrow>
               if length a mod 2 = 1 then
                 Some (Inl (Panic ''Map literal must contain an even number of forms.''), lr1)
               else Some (RT_Map a, lr1))
      | RegexReader \<Rightarrow> Some (RegexReader_Invoke g lr)
      | MetaReader \<Rightarrow> Some (Inr VNil, lr)
      | SyntaxQuoteReader \<Rightarrow> Some (Inr VNil, lr)
      | UnquoteReader \<Rightarrow> Some (Inr VNil, lr)
      | UnmatchedDelimiterReader \<Rightarrow> Some (Inr VNil, lr)
      | RuneReader \<Rightarrow> Some (Inr VNil, lr)
      | ArgReader \<Rightarrow> Some (Inr VNil, lr)
      | FnReader \<Rightarrow> Some (Inr VNil, lr)
      | SetReader \<Rightarrow> Some (Inr VNil, lr)
      | EvalReader \<Rightarrow> Some (Inr VNil, lr)
      | UnreadableReader \<Rightarrow> Some (Inr VNil, lr)
      | ConditionalReader \<Rightarrow> Some (Inr VNil, lr)
      | CtorReader \<Rightarrow> Some (Inr VNil, lr))"
  apply pat_completeness
  apply (simp_all only: prod.inject nat.inject nat.distinct Pair_inject)
  apply blast+
  done
termination
  by (relation "measure (\<lambda>x. case x of Inl (Inl (n, _)) \<Rightarrow> n | Inl (Inr (n, _)) \<Rightarrow> n | Inr (Inl (n, _)) \<Rightarrow> n | Inr (Inr (n, _)) \<Rightarrow> n)") simp_all

subsection \<open>Sentinels and the integers that number reading returns\<close>




section \<open>Properties\<close>

subsection \<open>Auxiliary facts\<close>

lemma skipSpace_prefix:
  "list_all IsSpace ws \<Longrightarrow> \<not> IsSpace c \<Longrightarrow>
   skipSpace (ReadRune \<lparr>unread = ws @ c # rest, lastRune = l\<rparr>) =
     ((c, None), \<lparr>unread = rest, lastRune = Some c\<rparr>)"
  by (induction ws arbitrary: l) (simp_all add: ReadRune_def skipSpace.simps)

lemma pairs_length: "even (length a) \<Longrightarrow> length (pairs a) = length a div 2"
  by (induction a rule: pairs.induct) simp_all

lemma pairs_concat: "even (length a) \<Longrightarrow> concat (map (\<lambda>(k, v). [k, v]) (pairs a)) = a"
  by (induction a rule: pairs.induct) simp_all

subsection \<open>The read-eval flag\<close>

text \<open>
  C3. When \<^verbatim>\<open>READEVAL.Deref()\<close> is the keyword \<^verbatim>\<open>:unknown\<close>, \<^verbatim>\<open>Read\<close> panics with
  "Reading disallowed" whatever its arguments, its pending forms and its input are, and the
  reader it leaves is the reader it was given: no rune has been read.
\<close>

theorem Read_unknown_fails_first:
  "READEVAL g = VKeyword UNKNOWN \<Longrightarrow>
   Read (Suc n) g eofIsError eofValue returnOn returnOnValue isRecursive opts pendingForms lr =
     Some (Inl (Panic ''Reading disallowed - *read-eval* bound to :unknown''), lr)"
  by simp

theorem Read_unknown_fails_first_witness:
  "READEVAL (package 3 4 (VKeyword UNKNOWN)) = VKeyword UNKNOWN \<and>
   Read (Suc 0) (package 3 4 (VKeyword UNKNOWN)) True VNil (CHR 0x00) VNil False VNil VNil
     (CreateLispReader [CHR 0x20, CHR 0x0A]) =
     Some (Inl (Panic ''Reading disallowed - *read-eval* bound to :unknown''),
           CreateLispReader [CHR 0x20, CHR 0x0A])"
proof -
  have h: "READEVAL (package 3 4 (VKeyword UNKNOWN)) = VKeyword UNKNOWN"
    by (simp add: package_def)
  show ?thesis
    using h Read_unknown_fails_first [OF h, of 0 True VNil "CHR 0x00" VNil False VNil VNil
      "CreateLispReader [CHR 0x20, CHR 0x0A]"]
    by simp
qed

subsection \<open>Map literals\<close>

text \<open>
  The map reader on the forms that \<^verbatim>\<open>ReadDelimitedList\<close> returns: \<^verbatim>\<open>Read\<close> finds the opening
  brace (white space may come before it), and when \<^verbatim>\<open>ReadDelimitedList\<close> returns the
  values \<open>a\<close>, an odd number of them is the panic "Map literal must contain an even number of
  forms.", and an even number hands \<open>a\<close> to \<^verbatim>\<open>RT.Map\<close>; the pairs of \<open>a\<close> are half as many
  as its values and list them in order, and with distinct keys the map has exactly these
  pairs as entries. What \<open>a\<close> holds is the matter of the next theorem.
\<close>

theorem Read_map_literal:
  assumes "macros g (CHR ''{'') = Some MapReader"
    and "READEVAL g \<noteq> VKeyword UNKNOWN"
    and "pending_front pendingForms = None"
    and "returnOn \<noteq> CHR ''{''"
    and "list_all IsSpace ws"
    and "ReadDelimitedList n g (CHR ''}'') True opts (ensurePending pendingForms) []
           \<lparr>unread = s, lastRune = Some (CHR ''{'')\<rparr> = Some (Inr a, lr1)"
  shows "Read (Suc (Suc (Suc n))) g eofIsError eofValue returnOn returnOnValue isRecursive opts
           pendingForms \<lparr>unread = ws @ CHR ''{'' # s, lastRune = l\<rparr> =
         Some (if odd (length a)
               then Inl (Panic ''Map literal must contain an even number of forms.'')
               else RT_Map a, lr1)
         \<and> (even (length a) \<longrightarrow>
              length (pairs a) = length a div 2 \<and>
              concat (map (\<lambda>(k, v). [k, v]) (pairs a)) = a)
         \<and> (distinct (map fst (pairs a)) \<longrightarrow> RT_Map a = Inr (VPersistentMap (pairs a)))"
proof -
  have sp: "\<not> IsSpace (CHR ''{'')"
    by (simp add: IsSpace_def)
  have sk: "skipSpace (ReadRune \<lparr>unread = ws @ CHR ''{'' # s, lastRune = l\<rparr>) =
              ((CHR ''{'', None), \<lparr>unread = s, lastRune = Some (CHR ''{'')\<rparr>)"
    by (rule skipSpace_prefix [OF assms(5) sp])
  have dg: "\<not> IsDigit (CHR ''{'')"
    by (simp add: IsDigit_def)
  have inv: "Invoke (Suc n) g MapReader (CHR ''{'') opts pendingForms
               \<lparr>unread = s, lastRune = Some (CHR ''{'')\<rparr> =
             Some (if odd (length a)
                   then Inl (Panic ''Map literal must contain an even number of forms.'')
                   else RT_Map a, lr1)"
    using assms(6) by (simp add: odd_iff_mod_2_eq_one)
  have nb: "RT_Map a \<noteq> Inr VBufioReader"
    by (simp add: RT_Map_def)
  have rd: "Read (Suc (Suc (Suc n))) g eofIsError eofValue returnOn returnOnValue isRecursive
              opts pendingForms \<lparr>unread = ws @ CHR ''{'' # s, lastRune = l\<rparr> =
            Some (if odd (length a)
                  then Inl (Panic ''Map literal must contain an even number of forms.'')
                  else RT_Map a, lr1)"
  proof (cases "odd (length a)")
    case True
    with assms(1-4) sk dg inv show ?thesis by simp
  next
    case False
    show ?thesis
    proof (cases "RT_Map a")
      case (Inl e)
      with False assms(1-4) sk dg inv show ?thesis by simp
    next
      case (Inr m)
      with nb have "m \<noteq> VBufioReader" by simp
      with Inr False assms(1-4) sk dg inv show ?thesis by simp
    qed
  qed
  show ?thesis
    using rd by (simp add: pairs_length pairs_concat RT_Map_def)
qed

theorem Read_map_literal_witness:
  "Read (Suc (Suc (Suc 9))) example_package True VNil (CHR 0x00) VNil False VNil VNil
     \<lparr>unread = ''{:a 1 :b 2}'', lastRune = None\<rparr> =
     Some (Inr (VPersistentMap
                  [(VKeyword (Keyword \<lparr>ns = [], name = ''a''\<rparr>), VInt 1),
                   (VKeyword (Keyword \<lparr>ns = [], name = ''b''\<rparr>), VInt 2)]),
           \<lparr>unread = [], lastRune = Some (CHR ''}'')\<rparr>)
   \<and> Read (Suc (Suc (Suc 9))) example_package True VNil (CHR 0x00) VNil False VNil VNil
     \<lparr>unread = ''{:a 1 :b}'', lastRune = None\<rparr> =
     Some (Inl (Panic ''Map literal must contain an even number of forms.''),
           \<lparr>unread = [], lastRune = Some (CHR ''}'')\<rparr>)"
proof -
  let ?ka = "VKeyword (Keyword \<lparr>ns = [], name = ''a''\<rparr>)"
  let ?kb = "VKeyword (Keyword \<lparr>ns = [], name = ''b''\<rparr>)"
  let ?closed = "\<lparr>unread = [], lastRune = Some (CHR ''}'')\<rparr>"
  have 1: "macros example_package (CHR ''{'') = Some MapReader"
    by (simp add: example_package_def package_def macros_init_def)
  have 2: "READEVAL example_package \<noteq> VKeyword UNKNOWN"
    by (simp add: example_package_def package_def)
  have 3: "pending_front VNil = None"
    by (simp add: pending_front_def)
  have 4: "CHR 0x00 \<noteq> CHR ''{''"
    by simp
  have 5: "list_all IsSpace []"
    by simp
  have even_forms:
    "ReadDelimitedList 9 example_package (CHR ''}'') True VNil (ensurePending VNil) []
       \<lparr>unread = '':a 1 :b 2}'', lastRune = Some (CHR ''{'')\<rparr> =
     Some (Inr [?ka, VInt 1, ?kb, VInt 2], ?closed)"
    by code_simp
  have odd_forms:
    "ReadDelimitedList 9 example_package (CHR ''}'') True VNil (ensurePending VNil) []
       \<lparr>unread = '':a 1 :b}'', lastRune = Some (CHR ''{'')\<rparr> =
     Some (Inr [?ka, VInt 1, ?kb], ?closed)"
    by code_simp
  have two: "RT_Map [?ka, VInt 1, ?kb, VInt 2] =
               Inr (VPersistentMap [(?ka, VInt 1), (?kb, VInt 2)])"
    by (simp add: RT_Map_def)
  from Read_map_literal [OF 1 2 3 4 5 even_forms, of True VNil VNil False None]
  have r1: "Read (Suc (Suc (Suc 9))) example_package True VNil (CHR 0x00) VNil False VNil VNil
              \<lparr>unread = ''{:a 1 :b 2}'', lastRune = None\<rparr> =
            Some (Inr (VPersistentMap [(?ka, VInt 1), (?kb, VInt 2)]), ?closed)"
    by (simp only: two list.size append_Nil) simp
  from Read_map_literal [OF 1 2 3 4 5 odd_forms, of True VNil VNil False None]
  have r2: "Read (Suc (Suc (Suc 9))) example_package True VNil (CHR 0x00) VNil False VNil VNil
              \<lparr>unread = ''{:a 1 :b}'', lastRune = None\<rparr> =
            Some (Inl (Panic ''Map literal must contain an even number of forms.''), ?closed)"
    by (simp only: list.size append_Nil) simp
  from r1 r2 show ?thesis
    by (rule conjI)
qed

text \<open>
  C8. The values that the map reader counts and pairs are the results of the handlers, not
  the forms of the literal. The discard reader returns the \<^verbatim>\<open>LispReader\<close> and \<^verbatim>\<open>Read\<close>
  returns it as a form, its test for going on being always false: the literal
  \<^verbatim>\<open>{:a 1 :b #_2}\<close>, which has the three forms \<^verbatim>\<open>:a 1 :b\<close>, reads as a map of two entries,
  the second with the reader as its value, and the literal \<^verbatim>\<open>{:a 1 ;c\<close>, line feed,
  \<^verbatim>\<open>}\<close>, which has two forms, fails as odd. The wrapping reader returns \<^verbatim>\<open>nil\<close> and reads
  nothing: the literal \<^verbatim>\<open>{:a 'b}\<close>, which has the two forms \<^verbatim>\<open>:a\<close> and \<^verbatim>\<open>(quote b)\<close>,
  fails as odd.
\<close>

theorem map_literal_counts_handler_results:
  "Read 20 example_package True VNil (CHR 0x00) VNil False VNil VNil
     (CreateLispReader ''{:a 1 :b #_2}'') =
     Some (Inr (VPersistentMap
                  [(VKeyword (Keyword \<lparr>ns = [], name = ''a''\<rparr>), VInt 1),
                   (VKeyword (Keyword \<lparr>ns = [], name = ''b''\<rparr>), VLispReader)]),
           \<lparr>unread = [], lastRune = Some (CHR ''}'')\<rparr>)
   \<and> Read 20 example_package True VNil (CHR 0x00) VNil False VNil VNil
     (CreateLispReader (''{:a 1 ;c'' @ [CHR 0x0A] @ ''}'')) =
     Some (Inl (Panic ''Map literal must contain an even number of forms.''),
           \<lparr>unread = [], lastRune = Some (CHR ''}'')\<rparr>)
   \<and> Read 20 example_package True VNil (CHR 0x00) VNil False VNil VNil
     (CreateLispReader (''{:a '' @ [CHR 0x27] @ ''b}'')) =
     Some (Inl (Panic ''Map literal must contain an even number of forms.''),
           \<lparr>unread = [], lastRune = Some (CHR ''}'')\<rparr>)"
  by code_simp

subsection \<open>The dispatch rune at the end of input\<close>

text \<open>
  C10. When the input ends right after a \<^verbatim>\<open>#\<close> (white space may come before it) and \<^verbatim>\<open>#\<close> is
  bound to the dispatch reader, \<^verbatim>\<open>Read\<close> panics with "EOF while reading character". The
  result is the same for every dispatch table and every constructor reader: neither is
  consulted. The other hypotheses say that \<^verbatim>\<open>Read\<close> gets as far as the \<^verbatim>\<open>#\<close>: the read-eval
  flag is not \<^verbatim>\<open>:unknown\<close>, the pending forms give no answer, and \<^verbatim>\<open>#\<close> is not the rune to
  return on.
\<close>

theorem DispatchReader_EOF:
  assumes "macros g (CHR ''#'') = Some DispatchReader"
    and "READEVAL g \<noteq> VKeyword UNKNOWN"
    and "pending_front pendingForms = None"
    and "returnOn \<noteq> CHR ''#''"
    and "list_all IsSpace ws"
  shows "Read (Suc (Suc (Suc n))) g eofIsError eofValue returnOn returnOnValue isRecursive opts
           pendingForms \<lparr>unread = ws @ ''#'', lastRune = l\<rparr> =
         Some (Inl (Panic ''EOF while reading character''), \<lparr>unread = [], lastRune = None\<rparr>)"
proof -
  have sp: "\<not> IsSpace (CHR ''#'')"
    by (simp add: IsSpace_def)
  have sk: "skipSpace (ReadRune \<lparr>unread = ws @ ''#'', lastRune = l\<rparr>) =
              ((CHR ''#'', None), \<lparr>unread = [], lastRune = Some (CHR ''#'')\<rparr>)"
    using skipSpace_prefix [OF assms(5) sp, of "[]" l] by simp
  have dg: "\<not> IsDigit (CHR ''#'')"
    by (simp add: IsDigit_def)
  have inv: "Invoke (Suc n) g DispatchReader (CHR ''#'') opts pendingForms
               \<lparr>unread = [], lastRune = Some (CHR ''#'')\<rparr> =
             Some (Inl (Panic ''EOF while reading character''), \<lparr>unread = [], lastRune = None\<rparr>)"
    by (simp add: ReadRune_def)
  show ?thesis
    using assms(1-4) sk dg inv by simp
qed

theorem DispatchReader_EOF_witness:
  "Read (Suc (Suc (Suc 0))) example_package True VNil (CHR 0x00) VNil False VNil VNil
     \<lparr>unread = [CHR 0x20, CHR 0x0A] @ ''#'', lastRune = None\<rparr> =
   Some (Inl (Panic ''EOF while reading character''), \<lparr>unread = [], lastRune = None\<rparr>)"
proof -
  have 1: "macros example_package (CHR ''#'') = Some DispatchReader"
    by (simp add: example_package_def package_def macros_init_def)
  have 2: "READEVAL example_package \<noteq> VKeyword UNKNOWN"
    by (simp add: example_package_def package_def)
  have 3: "pending_front VNil = None"
    by (simp add: pending_front_def)
  have 4: "CHR 0x00 \<noteq> CHR ''#''"
    by simp
  have 5: "list_all IsSpace [CHR 0x20, CHR 0x0A]"
    by (simp add: IsSpace_def)
  show ?thesis
    by (rule DispatchReader_EOF [OF 1 2 3 4 5])
qed

subsection \<open>Handlers that ask the reader to go on\<close>

text \<open>
  C1. The comment reader and the discard reader return the \<^verbatim>\<open>LispReader\<close> they were
  given, and \<^verbatim>\<open>Read\<close> compares a handler's result with \<^verbatim>\<open>lr.r\<close>, the \<^verbatim>\<open>bufio.Reader\<close>:
  the two are never equal, so \<^verbatim>\<open>Read\<close> does not go on to the next form. On the input
  \<^verbatim>\<open>#_(1 2) 3\<close> and on a comment line followed by \<^verbatim>\<open>true\<close> it returns the reader itself as
  the form and leaves the form that follows unread.
\<close>

theorem Read_returns_reader_after_discard_and_comment:
  "Read 20 example_package True VNil (CHR 0x00) VNil False VNil VNil
     (CreateLispReader ''#_(1 2) 3 '') =
     Some (Inr VLispReader, \<lparr>unread = '' 3 '', lastRune = Some (CHR '')'')\<rparr>)
   \<and> Read 20 example_package True VNil (CHR 0x00) VNil False VNil VNil
     (CreateLispReader ('';c'' @ [CHR 0x0A] @ ''true '')) =
     Some (Inr VLispReader, \<lparr>unread = ''true '', lastRune = Some (CHR 0x0A)\<rparr>)"
  by code_simp

subsection \<open>Numbers\<close>

text \<open>
  C2. \<^verbatim>\<open>ReadNumber\<close> writes the first rune of the token once for every rune it reads, and
  parses the buffer as a decimal integer or a float: the token \<^verbatim>\<open>123\<close> followed by a space
  reads as the integer 111 and the token \<^verbatim>\<open>0x1F\<close> as the integer 0; the token \<^verbatim>\<open>123\<close> at
  the end of input fails in \<^verbatim>\<open>UnreadRune\<close>.
\<close>

theorem ReadNumber_repeats_first_rune:
  "Read 20 example_package True VNil (CHR 0x00) VNil False VNil VNil
     (CreateLispReader ''123 '') =
     Some (Inr (VInt 111), \<lparr>unread = '' '', lastRune = None\<rparr>)
   \<and> Read 20 example_package True VNil (CHR 0x00) VNil False VNil VNil
     (CreateLispReader ''0x1F '') =
     Some (Inr (VInt 0), \<lparr>unread = '' '', lastRune = None\<rparr>)
   \<and> Read 20 example_package True VNil (CHR 0x00) VNil False VNil VNil
     (CreateLispReader ''123'') =
     Some (Inl (Thrown ErrInvalidUnreadRune), \<lparr>unread = [], lastRune = None\<rparr>)"
  by code_simp

subsection \<open>Pending forms\<close>

text \<open>
  C4. The type switch of \<^verbatim>\<open>Read\<close> lists the case \<^verbatim>\<open>list.List\<close> only, and the queue that
  \<^verbatim>\<open>ensurePending\<close> creates is a \<^verbatim>\<open>*list.List\<close>: with such a queue holding the form 5,
  \<^verbatim>\<open>Read\<close> does not return 5; it reads the token \<^verbatim>\<open>true\<close> from the input and returns that.
\<close>

theorem Read_ignores_pending_list_pointer:
  "ensurePending VNil = VListPtr []
   \<and> Read 20 example_package True VNil (CHR 0x00) VNil False VNil (VListPtr [VInt 5])
       (CreateLispReader ''true '') =
     Some (Inr (VBool True), \<lparr>unread = '' '', lastRune = None\<rparr>)"
  by code_simp

subsection \<open>Tokens at the end of input\<close>

text \<open>
  C5. \<^verbatim>\<open>ReadToken\<close> calls \<^verbatim>\<open>UnreadRune\<close> also when the read that ended the token hit the
  end of input; no rune was read then, \<^verbatim>\<open>bufio\<close> answers \<^verbatim>\<open>ErrInvalidUnreadRune\<close>, and
  \<^verbatim>\<open>UnreadRune\<close> throws it. The token \<^verbatim>\<open>foo\<close> with nothing after it is not returned, by
  \<^verbatim>\<open>ReadToken\<close> or by \<^verbatim>\<open>Read\<close>; followed by a closing parenthesis it is.
\<close>

theorem ReadToken_throws_at_end_of_input:
  "ReadToken example_package (CHR ''f'') \<lparr>unread = ''oo'', lastRune = Some (CHR ''f'')\<rparr> =
     (Inl (Thrown ErrInvalidUnreadRune), \<lparr>unread = [], lastRune = None\<rparr>)
   \<and> Read 20 example_package True VNil (CHR 0x00) VNil False VNil VNil
       (CreateLispReader ''foo'') =
     Some (Inl (Thrown ErrInvalidUnreadRune), \<lparr>unread = [], lastRune = None\<rparr>)
   \<and> ReadToken example_package (CHR ''f'') \<lparr>unread = ''oo)'', lastRune = Some (CHR ''f'')\<rparr> =
     (Inr ''foo'', \<lparr>unread = '')'', lastRune = None\<rparr>)"
  by code_simp

subsection \<open>Quote and deref\<close>

text \<open>
  C6. \<^verbatim>\<open>WrappingReader.Invoke\<close> returns \<^verbatim>\<open>nil\<close> and reads nothing: on the inputs
  \<^verbatim>\<open>'a\<close> and \<^verbatim>\<open>@a\<close>, \<^verbatim>\<open>Read\<close> returns \<^verbatim>\<open>nil\<close>, not a list of two elements, and leaves
  \<^verbatim>\<open>a\<close> unread. Both runes are bound to the wrapping reader, with the symbols \<^verbatim>\<open>quote\<close> and
  \<^verbatim>\<open>clojure.core/deref\<close>.
\<close>

theorem WrappingReader_returns_nil:
  "macros example_package (CHR 0x27) = Some (WrappingReader \<lparr>ns = [], name = ''quote''\<rparr>)
   \<and> macros example_package (CHR ''@'') =
       Some (WrappingReader \<lparr>ns = ''clojure.core'', name = ''deref''\<rparr>)
   \<and> Read 20 example_package True VNil (CHR 0x00) VNil False VNil VNil
       (CreateLispReader (CHR 0x27 # ''a '')) =
     Some (Inr VNil, \<lparr>unread = ''a '', lastRune = Some (CHR 0x27)\<rparr>)
   \<and> Read 20 example_package True VNil (CHR 0x00) VNil False VNil VNil
       (CreateLispReader ''@a '') =
     Some (Inr VNil, \<lparr>unread = ''a '', lastRune = Some (CHR ''@'')\<rparr>)"
  by code_simp

subsection \<open>String escapes\<close>

text \<open>
  C7. \<^verbatim>\<open>StringReader.Invoke\<close> rejects no escape: a backslash before \<^verbatim>\<open>q\<close> gives the rune
  \<^verbatim>\<open>q\<close>, and after \<^verbatim>\<open>\u\<close> the next rune is taken as it is. The literal of the runes
  \<^verbatim>\<open>" \ q "\<close> reads as the string \<^verbatim>\<open>q\<close>, and the literal of the runes \<^verbatim>\<open>" \ u 4 1 "\<close> as
  the string \<^verbatim>\<open>41\<close>.
\<close>

theorem StringReader_accepts_every_escape:
  "Read 20 example_package True VNil (CHR 0x00) VNil False VNil VNil
     (CreateLispReader [CHR 0x22, CHR 0x5C, CHR ''q'', CHR 0x22]) =
     Some (Inr (VString ''q''), \<lparr>unread = [], lastRune = Some (CHR 0x22)\<rparr>)
   \<and> Read 20 example_package True VNil (CHR 0x00) VNil False VNil VNil
     (CreateLispReader [CHR 0x22, CHR 0x5C, CHR ''u'', CHR ''4'', CHR ''1'', CHR 0x22]) =
     Some (Inr (VString ''41''), \<lparr>unread = [], lastRune = Some (CHR 0x22)\<rparr>)"
  by code_simp

subsection \<open>Further properties of the reader\<close>

text \<open>
  A token that runs to the end of input: when no rune left in the reader is white space or
  a terminating macro rune, \<^verbatim>\<open>ReadToken\<close> reads them all and then throws
  \<^verbatim>\<open>ErrInvalidUnreadRune\<close>, whatever the token is.
\<close>

theorem ReadToken_loop_end_of_input:
  "list_all (\<lambda>c. \<not> IsSpace c \<and> \<not> IsTerminatingMacro g c) s \<Longrightarrow>
   ReadToken_loop g b \<lparr>unread = s, lastRune = l\<rparr> =
     (Inl (Thrown ErrInvalidUnreadRune), \<lparr>unread = [], lastRune = None\<rparr>)"
proof (induction s arbitrary: b l)
  case Nil
  show ?case
    by (subst ReadToken_loop.simps)
       (simp add: ReadRune_def UnreadRune_def SneakyThrow_def is_err_def)
next
  case (Cons c s)
  from Cons.prems have c: "\<not> IsSpace c" "\<not> IsTerminatingMacro g c"
    and s: "list_all (\<lambda>c. \<not> IsSpace c \<and> \<not> IsTerminatingMacro g c) s"
    by simp_all
  have "ReadToken_loop g b \<lparr>unread = c # s, lastRune = l\<rparr> =
          ReadToken_loop g (b @ [c]) \<lparr>unread = s, lastRune = Some c\<rparr>"
    by (subst ReadToken_loop.simps) (simp add: ReadRune_def is_err_def c)
  then show ?case
    by (simp add: Cons.IH [OF s])
qed

theorem ReadToken_loop_end_of_input_witness:
  "list_all (\<lambda>c. \<not> IsSpace c \<and> \<not> IsTerminatingMacro example_package c) ''oo'' \<and>
   ReadToken_loop example_package ''f'' \<lparr>unread = ''oo'', lastRune = Some (CHR ''f'')\<rparr> =
     (Inl (Thrown ErrInvalidUnreadRune), \<lparr>unread = [], lastRune = None\<rparr>)"
proof -
  have h: "list_all (\<lambda>c. \<not> IsSpace c \<and> \<not> IsTerminatingMacro example_package c) ''oo''"
    by (simp add: IsSpace_def IsTerminatingMacro_def IsMacro_def example_package_def
                  package_def macros_init_def)
  show ?thesis
    using h ReadToken_loop_end_of_input [OF h, of "''f''" "Some (CHR ''f'')"] by simp
qed

text \<open>
  The buffer that \<^verbatim>\<open>ReadNumber\<close> parses: whenever its loop returns, the buffer is the
  buffer it started with followed by copies of \<^verbatim>\<open>initch\<close> only.
\<close>

theorem ReadNumber_loop_buffer:
  "ReadNumber_loop g initch sb lr = (Inr s, lr1) \<Longrightarrow>
   \<exists>k. s = sb @ replicate k initch"
proof (induction g initch sb lr rule: ReadNumber_loop.induct)
  case (1 g initch sb lr)
  obtain ch err lr0 where rr: "ReadRune lr = ((ch, err), lr0)"
    by (metis prod.exhaust)
  show ?case
  proof (cases "is_err err \<or> IsSpace ch \<or> IsMacro g ch")
    case True
    from 1(2) have "s = sb"
      by (subst (asm) ReadNumber_loop.simps) (simp add: rr True split: prod.splits sum.splits)
    then show ?thesis by simp
  next
    case False
    from 1(2) have "ReadNumber_loop g initch (sb @ [initch]) lr0 = (Inr s, lr1)"
      by (subst (asm) ReadNumber_loop.simps) (simp add: rr False)
    from 1(1) [OF rr [symmetric] refl False this]
    obtain k where "s = (sb @ [initch]) @ replicate k initch" by blast
    then have "s = sb @ replicate (Suc k) initch" by simp
    then show ?thesis by blast
  qed
qed

theorem ReadNumber_loop_buffer_witness:
  "ReadNumber_loop example_package (CHR ''1'') ''1''
     \<lparr>unread = ''23 '', lastRune = Some (CHR ''1'')\<rparr> =
     (Inr ''111'', \<lparr>unread = '' '', lastRune = None\<rparr>)
   \<and> (\<exists>k. ''111'' = ''1'' @ replicate k (CHR ''1''))"
proof -
  have h: "ReadNumber_loop example_package (CHR ''1'') ''1''
             \<lparr>unread = ''23 '', lastRune = Some (CHR ''1'')\<rparr> =
           (Inr ''111'', \<lparr>unread = '' '', lastRune = None\<rparr>)"
    by code_simp
  show ?thesis
    using h ReadNumber_loop_buffer [OF h] by simp
qed

text \<open>
  No handler returns the \<^verbatim>\<open>bufio.Reader\<close>: the test \<^verbatim>\<open>ret == lr.r\<close> of \<^verbatim>\<open>Read\<close> fails after
  every handler, for every macro table, and its \<^verbatim>\<open>continue\<close> is never reached.
\<close>

lemma StringReader_loop_result:
  "StringReader_loop sb lr = (Inr v, lr1) \<Longrightarrow> \<exists>s. v = VString s"
proof (induction sb lr rule: StringReader_loop.induct)
  case (1 sb lr)
  obtain ch err lr0 where rr: "ReadRune lr = ((ch, err), lr0)"
    by (metis prod.exhaust)
  show ?case
  proof (cases "ch = CHR 0x22")
    case True
    from 1(3) have "v = VString sb"
      by (subst (asm) StringReader_loop.simps) (simp add: rr True)
    then show ?thesis by blast
  next
    case quote: False
    show ?thesis
    proof (cases "err = Some EOF")
      case True
      from 1(3) have False
        by (subst (asm) StringReader_loop.simps) (simp add: rr quote True)
      then show ?thesis ..
    next
      case eof: False
      show ?thesis
      proof (cases "ch = CHR 0x5C")
        case plain: False
        from 1(3) have "StringReader_loop (sb @ [ch]) lr0 = (Inr v, lr1)"
          by (subst (asm) StringReader_loop.simps) (simp add: rr quote eof plain)
        from 1(2) [OF rr [symmetric] refl quote eof plain this] show ?thesis .
      next
        case esc: True
        obtain ch2 err2 lr2 where rr2: "ReadRune lr0 = ((ch2, err2), lr2)"
          by (metis prod.exhaust)
        obtain ch3 lr3 where es: "StringReader_escape ch2 lr2 = (ch3, lr3)"
          by (metis prod.exhaust)
        show ?thesis
        proof (cases "err2 = Some EOF")
          case True
          from 1(3) have False
            by (subst (asm) StringReader_loop.simps) (simp add: rr quote eof esc rr2 True)
          then show ?thesis ..
        next
          case eof2: False
          from 1(3) have "StringReader_loop (sb @ [ch3]) lr3 = (Inr v, lr1)"
            by (subst (asm) StringReader_loop.simps) (simp add: rr quote eof esc rr2 eof2 es)
          from 1(1) [OF rr [symmetric] refl quote eof esc rr2 [symmetric] refl eof2
                        es [symmetric] this]
          show ?thesis .
        qed
      qed
    qed
  qed
qed

lemma Invoke_result:
  "Invoke n g fn ch opts pendingForms lr = Some (Inr ret, lr1) \<Longrightarrow>
   ret \<noteq> VBufioReader \<and> (\<forall>k. ret \<noteq> VInt k)"
proof (induction n arbitrary: fn ch pendingForms lr ret lr1)
  case 0
  then show ?case by simp
next
  case (Suc n)
  show ?case
  proof (cases fn)
    case StringReader
    with Suc.prems have "StringReader_loop [] lr = (Inr ret, lr1)"
      by simp
    then show ?thesis
      by (auto dest: StringReader_loop_result)
  next
    case DispatchReader
    obtain ch1 err lr0 where rr: "ReadRune lr = ((ch1, err), lr0)"
      by (metis prod.exhaust)
    show ?thesis
    proof (cases "dispatchMacros g ch1")
      case (Some fn1)
      with Suc.prems DispatchReader rr
      have "Invoke n g fn1 ch1 opts pendingForms lr0 = Some (Inr ret, lr1)"
        by (simp split: if_splits)
      then show ?thesis by (rule Suc.IH)
    next
      case None
      obtain u lr2 where ur: "UnreadRune lr0 = (u, lr2)"
        by (metis prod.exhaust)
      with Suc.prems DispatchReader rr None
      have "Invoke n g (ctorReader g) ch1 opts (ensurePending pendingForms) lr2 =
              Some (Inr ret, lr1)"
        by (simp split: if_splits sum.splits option.splits prod.splits)
      then show ?thesis by (rule Suc.IH)
    qed
  next
    case RegexReader
    with Suc.prems show ?thesis
      by (auto simp: RegexReader_Invoke_def split: prod.splits if_splits sum.splits)
  next
    case ListReader
    with Suc.prems show ?thesis
      by (auto simp: EMPTY_PERSISTENT_LIST_def CreatePersistentListFromInterfaceSlice_def
               split: prod.splits if_splits option.splits sum.splits)
  next
    case VectorReader
    with Suc.prems show ?thesis
      by (auto simp: CreateLazilyPersistentVector_def
               split: prod.splits option.splits sum.splits)
  next
    case MapReader
    with Suc.prems show ?thesis
      by (auto simp: RT_Map_def split: prod.splits if_splits option.splits sum.splits)
  next
    case VarReader
    with Suc.prems show ?thesis
      by (auto simp: RT_List_def split: prod.splits option.splits sum.splits)
  next
    case DiscardReader
    with Suc.prems show ?thesis
      by (auto split: prod.splits option.splits sum.splits)
  qed (use Suc.prems in auto)
qed

theorem Invoke_never_returns_bufio_reader:
  "Invoke n g fn ch opts pendingForms lr = Some (Inr ret, lr1) \<Longrightarrow> ret \<noteq> VBufioReader"
  using Invoke_result by blast


theorem Invoke_never_returns_bufio_reader_witness:
  "Invoke 1 example_package CommentReader (CHR '';'') VNil VNil
     \<lparr>unread = ''c'', lastRune = Some (CHR '';'')\<rparr> =
     Some (Inr VLispReader, \<lparr>unread = [], lastRune = None\<rparr>)
   \<and> VLispReader \<noteq> VBufioReader"
proof -
  have h: "Invoke 1 example_package CommentReader (CHR '';'') VNil VNil
             \<lparr>unread = ''c'', lastRune = Some (CHR '';'')\<rparr> =
           Some (Inr VLispReader, \<lparr>unread = [], lastRune = None\<rparr>)"
    by code_simp
  show ?thesis
    using h Invoke_never_returns_bufio_reader [OF h] by simp
qed

text \<open>
  \<^verbatim>\<open>ReadDelimitedList\<close> appends: started with the slice \<open>a\<close> it returns \<open>a\<close> followed by the
  forms it returns when started with the empty slice, in the same order, and it fails or
  stops short exactly when that run does.
\<close>

theorem ReadDelimitedList_appends:
  "ReadDelimitedList n g delim isRecursive opts pendingForms a lr =
     (case ReadDelimitedList n g delim isRecursive opts pendingForms [] lr of
        None \<Rightarrow> None
      | Some (Inl e, lr1) \<Rightarrow> Some (Inl e, lr1)
      | Some (Inr fs, lr1) \<Rightarrow> Some (Inr (a @ fs), lr1))"
proof (induction n arbitrary: a lr)
  case 0
  show ?case by simp
next
  case (Suc n)
  let ?rd = "Read n g False (VInt (READ_EOF g)) delim (VInt (READ_FINISHED g)) isRecursive opts
               pendingForms lr"
  show ?case
  proof (cases ?rd)
    case None
    then show ?thesis by simp
  next
    case (Some res)
    obtain r lr0 where res: "res = (r, lr0)" by (cases res)
    show ?thesis
    proof (cases r)
      case (Inl e)
      with Some res show ?thesis by simp
    next
      case (Inr form)
      have ih1: "ReadDelimitedList n g delim isRecursive opts pendingForms (a @ [form]) lr0 =
                   (case ReadDelimitedList n g delim isRecursive opts pendingForms [] lr0 of
                      None \<Rightarrow> None
                    | Some (Inl e, lr1) \<Rightarrow> Some (Inl e, lr1)
                    | Some (Inr fs, lr1) \<Rightarrow> Some (Inr ((a @ [form]) @ fs), lr1))"
        by (rule Suc.IH)
      have ih2: "ReadDelimitedList n g delim isRecursive opts pendingForms [form] lr0 =
                   (case ReadDelimitedList n g delim isRecursive opts pendingForms [] lr0 of
                      None \<Rightarrow> None
                    | Some (Inl e, lr1) \<Rightarrow> Some (Inl e, lr1)
                    | Some (Inr fs, lr1) \<Rightarrow> Some (Inr ([form] @ fs), lr1))"
        by (rule Suc.IH)
      show ?thesis
        using Some res Inr
        by (simp add: ih1 ih2 split: option.splits prod.splits sum.splits)
    qed
  qed
qed

text \<open>
  With a non-empty \<^verbatim>\<open>list.List\<close> value as pending forms, \<^verbatim>\<open>Read\<close> returns the value of its
  front element and leaves the reader as it was.
\<close>

theorem Read_pending_list_value:
  "READEVAL g \<noteq> VKeyword UNKNOWN \<Longrightarrow>
   Read (Suc (Suc n)) g eofIsError eofValue returnOn returnOnValue isRecursive opts
     (VListVal (x # xs)) lr = Some (Inr x, lr)"
  by (simp add: pending_front_def)

theorem Read_pending_list_value_witness:
  "READEVAL example_package \<noteq> VKeyword UNKNOWN \<and>
   Read (Suc (Suc 0)) example_package True VNil (CHR 0x00) VNil False VNil
     (VListVal [VInt 5, VInt 6]) (CreateLispReader ''true '') =
     Some (Inr (VInt 5), CreateLispReader ''true '')"
proof -
  have h: "READEVAL example_package \<noteq> VKeyword UNKNOWN"
    by (simp add: example_package_def package_def)
  show ?thesis
    using h Read_pending_list_value [OF h, of 0 True VNil "CHR 0x00" VNil False VNil
      "VInt 5" "[VInt 6]" "CreateLispReader ''true ''"]
    by simp
qed

text \<open>
  The bound on calls only decides whether a result is reached: a result reached within some
  bound is the result for every larger bound.
\<close>

lemma fuel_Suc:
  "(\<forall>g a b c d e f p lr r. Read n g a b c d e f p lr = Some r \<longrightarrow>
       Read (Suc n) g a b c d e f p lr = Some r)
   \<and> (\<forall>g a b c d e f p lr r. Read_loop n g a b c d e f p lr = Some r \<longrightarrow>
       Read_loop (Suc n) g a b c d e f p lr = Some r)
   \<and> (\<forall>g c e f p acc lr r. ReadDelimitedList n g c e f p acc lr = Some r \<longrightarrow>
       ReadDelimitedList (Suc n) g c e f p acc lr = Some r)
   \<and> (\<forall>g fn c f p lr r. Invoke n g fn c f p lr = Some r \<longrightarrow>
       Invoke (Suc n) g fn c f p lr = Some r)"
proof (induction n)
  case 0
  show ?case by simp
next
  case (Suc n)
  note rd = Suc [THEN conjunct1, rule_format]
  note rl = Suc [THEN conjunct2, THEN conjunct1, rule_format]
  note dl = Suc [THEN conjunct2, THEN conjunct2, THEN conjunct1, rule_format]
  note iv = Suc [THEN conjunct2, THEN conjunct2, THEN conjunct2, rule_format]
  have 1: "Read (Suc (Suc n)) g a b c d e f p lr = Some r"
    if "Read (Suc n) g a b c d e f p lr = Some r" for g a b c d e f p lr r
    using that by (auto simp del: Read_loop.simps split: if_splits dest: rl)
  have 2: "Read_loop (Suc (Suc n)) g a b c d e f p lr = Some r"
    if h: "Read_loop (Suc n) g a b c d e f p lr = Some r" for g a b c d e f p lr r
  proof (cases "pending_front p")
    case (Some v)
    with h show ?thesis by simp
  next
    case None
    obtain ch err lr1 where sk: "skipSpace (ReadRune lr) = ((ch, err), lr1)"
      by (metis prod.exhaust)
    show ?thesis
    proof (cases "macros g ch")
      case nomacro: None
      with h None sk show ?thesis by (auto split: if_splits)
    next
      case (Some fn)
      show ?thesis
      proof (cases "Invoke n g fn ch f p lr1")
        case noinv: None
        with h None sk Some show ?thesis by (auto split: if_splits)
      next
        case inv: (Some res)
        note inv' = iv [OF inv]
        obtain x lr2 where res: "res = (x, lr2)" by (cases res)
        show ?thesis
        proof (cases x)
          case (Inl e)
          with h None sk Some inv inv' res show ?thesis
            by (auto simp del: Invoke.simps split: if_splits)
        next
          case (Inr ret)
          show ?thesis
          proof (cases "ret = VBufioReader")
            case False
            with Inr h None sk Some inv inv' res show ?thesis
              by (auto simp del: Invoke.simps split: if_splits)
          next
            case True
            with Inr h None sk Some inv inv' res show ?thesis
              by (auto simp del: Invoke.simps Read_loop.simps
                       simp add: Read_loop.simps(2) [of "Suc n"] Read_loop.simps(2) [of n]
                       split: if_splits dest: rl)
          qed
        qed
      qed
    qed
  qed
  have 3: "ReadDelimitedList (Suc (Suc n)) g c e f p acc lr = Some r"
    if h: "ReadDelimitedList (Suc n) g c e f p acc lr = Some r" for g c e f p acc lr r
  proof (cases "Read n g False (VInt (READ_EOF g)) c (VInt (READ_FINISHED g)) e f p lr")
    case None
    with h show ?thesis by simp
  next
    case (Some res)
    note rd' = rd [OF Some]
    obtain x lr1 where res: "res = (x, lr1)" by (cases res)
    show ?thesis
    proof (cases x)
      case (Inl err)
      with h Some rd' res show ?thesis
        by (simp del: Read.simps)
    next
      case (Inr form)
      show ?thesis
      proof (cases "form = VInt (READ_EOF g)")
        case True
        with Inr h Some rd' res show ?thesis
          by (simp del: Read.simps)
      next
        case neof: False
        show ?thesis
        proof (cases "form = VInt (READ_FINISHED g)")
          case True
          with neof Inr h Some rd' res show ?thesis
            by (simp del: Read.simps)
        next
          case False
          with neof Inr h Some res
          have "ReadDelimitedList n g c e f p (acc @ [form]) lr1 = Some r"
            by simp
          from dl [OF this] neof False Inr Some rd' res show ?thesis
            by (simp del: Read.simps ReadDelimitedList.simps
                     add: ReadDelimitedList.simps(2) [of "Suc n"])
        qed
      qed
    qed
  qed
  have 4: "Invoke (Suc (Suc n)) g fn c f p lr = Some r"
    if h: "Invoke (Suc n) g fn c f p lr = Some r" for g fn c f p lr r
  proof (cases fn)
    case DiscardReader
    with h show ?thesis
      by (auto simp del: Read.simps simp add: Invoke.simps(2) [of "Suc n"] Invoke.simps(2) [of n]
               split: option.splits prod.splits sum.splits dest!: rd)
  next
    case VarReader
    with h show ?thesis
      by (auto simp del: Read.simps simp add: Invoke.simps(2) [of "Suc n"] Invoke.simps(2) [of n]
               split: option.splits prod.splits sum.splits dest!: rd)
  next
    case ListReader
    with h show ?thesis
      by (auto simp del: ReadDelimitedList.simps
               split: option.splits prod.splits sum.splits if_splits dest!: dl)
  next
    case VectorReader
    with h show ?thesis
      by (auto simp del: ReadDelimitedList.simps
               split: option.splits prod.splits sum.splits if_splits dest!: dl)
  next
    case MapReader
    with h show ?thesis
      by (auto simp del: ReadDelimitedList.simps
               split: option.splits prod.splits sum.splits if_splits dest!: dl)
  next
    case DispatchReader
    obtain ch1 err lr1 where rr: "ReadRune lr = ((ch1, err), lr1)"
      by (metis prod.exhaust)
    show ?thesis
    proof (cases "err = Some EOF")
      case True
      with h DispatchReader rr show ?thesis by simp
    next
      case eof: False
      show ?thesis
      proof (cases "dispatchMacros g ch1")
        case (Some fn1)
        with h DispatchReader rr eof have "Invoke n g fn1 ch1 f p lr1 = Some r"
          by simp
        from iv [OF this] DispatchReader rr eof Some show ?thesis
          by (simp del: Invoke.simps add: Invoke.simps(2) [of "Suc n" g DispatchReader])
      next
        case None
        obtain u lr2 where ur: "UnreadRune lr1 = (u, lr2)"
          by (metis prod.exhaust)
        show ?thesis
        proof (cases u)
          case (Inl e)
          with h DispatchReader rr eof None ur show ?thesis by simp
        next
          case (Inr un)
          show ?thesis
          proof (cases "Invoke n g (ctorReader g) ch1 f (ensurePending p) lr2")
            case noinv: None
            with h DispatchReader rr eof None ur Inr show ?thesis by simp
          next
            case inv: (Some res)
            from iv [OF inv] inv h DispatchReader rr eof None ur Inr show ?thesis
              by (simp del: Invoke.simps
                       add: Invoke.simps(2) [of "Suc n" g DispatchReader]
                            Invoke.simps(2) [of n g DispatchReader])
          qed
        qed
      qed
    qed
  qed (use h in auto)
  show ?case
    by (intro conjI allI impI) (erule 1 2 3 4)+
qed

theorem Read_more_fuel:
  "Read n g eofIsError eofValue returnOn returnOnValue isRecursive opts pendingForms lr = Some r
   \<Longrightarrow> n \<le> m \<Longrightarrow>
   Read m g eofIsError eofValue returnOn returnOnValue isRecursive opts pendingForms lr = Some r"
proof (induction m)
  case 0
  then show ?case by simp
next
  case (Suc m)
  show ?case
  proof (cases "n = Suc m")
    case True
    with Suc.prems show ?thesis by simp
  next
    case False
    with Suc.prems have "n \<le> m" by simp
    from Suc.IH [OF Suc.prems(1) this] show ?thesis
      by (rule fuel_Suc [THEN conjunct1, rule_format])
  qed
qed

theorem Read_more_fuel_witness:
  "Read 3 example_package True VNil (CHR 0x00) VNil False VNil VNil (CreateLispReader ''#'') =
     Some (Inl (Panic ''EOF while reading character''), \<lparr>unread = [], lastRune = None\<rparr>)
   \<and> (3::nat) \<le> 20
   \<and> Read 20 example_package True VNil (CHR 0x00) VNil False VNil VNil (CreateLispReader ''#'') =
     Some (Inl (Panic ''EOF while reading character''), \<lparr>unread = [], lastRune = None\<rparr>)"
proof -
  have h: "Read 3 example_package True VNil (CHR 0x00) VNil False VNil VNil
             (CreateLispReader ''#'') =
           Some (Inl (Panic ''EOF while reading character''), \<lparr>unread = [], lastRune = None\<rparr>)"
    by code_simp
  have le: "(3::nat) \<le> 20"
    by simp
  from h le Read_more_fuel [OF h le] show ?thesis
    by (intro conjI)
qed

subsection \<open>Sentinels\<close>














text \<open>
  The hypothesis on the draws is needed: a sentinel is an \<^verbatim>\<open>int\<close>, as a parsed integer is, and
  a package whose draws were 7 and 1 would read the inputs \<^verbatim>\<open>7\<close> and \<^verbatim>\<open>1\<close> as forms equal to
  them, the list \<^verbatim>\<open>(1 2)\<close> as the empty list and the list \<^verbatim>\<open>(7)\<close> as the end of input.
\<close>

lemma repeated_digit_draws_collide:
  "Read 20 (package 7 1 (VBool True)) True VNil (CHR 0x00) VNil False VNil VNil
     (CreateLispReader ''1 '') =
     Some (Inr (VInt (READ_FINISHED (package 7 1 (VBool True)))),
           \<lparr>unread = '' '', lastRune = None\<rparr>)
   \<and> Read 20 (package 7 1 (VBool True)) True VNil (CHR 0x00) VNil False VNil VNil
     (CreateLispReader ''7 '') =
     Some (Inr (VInt (READ_EOF (package 7 1 (VBool True)))),
           \<lparr>unread = '' '', lastRune = None\<rparr>)
   \<and> Read 20 (package 7 1 (VBool True)) True VNil (CHR 0x00) VNil False VNil VNil
     (CreateLispReader ''(1 2)'') =
     Some (Inr (VPersistentList []), \<lparr>unread = '' 2)'', lastRune = None\<rparr>)
   \<and> Read 20 (package 7 1 (VBool True)) True VNil (CHR 0x00) VNil False VNil VNil
     (CreateLispReader ''(7)'') =
     Some (Inl (Panic ''EOF while reading''), \<lparr>unread = '')'', lastRune = None\<rparr>)"
  by code_simp

end
